theory Spec2Isabelle
  imports Main
begin

section \<open>Python values, exceptions and the application logger\<close>

text \<open>
  The exceptions that the modelled code can meet. \<open>IOError\<close> stands for Python 3's
  \<open>OSError\<close> and all of its subclasses (\<open>IOError\<close> is an alias of it), which is what
  the handler \<^verbatim>\<open>except IOError\<close> catches. \<open>UnicodeDecodeError\<close> and \<open>CsvError\<close> are
  the other errors that reading a text file through \<^verbatim>\<open>csv.reader\<close> can raise; they
  are not subclasses of \<open>OSError\<close>. \<open>AirflowException\<close> is what the orchestrator's
  library raises when it refuses a task. \<open>ClientError\<close> is whatever the compute
  client library raises.
\<close>

datatype py_error =
    IOError
  | StopIteration
  | IndexError
  | KeyError
  | TypeError
  | UnicodeDecodeError
  | CsvError
  | AirflowException
  | ClientError string

text \<open>A parsed configuration row: the dict \<^verbatim>\<open>{"table_source": ..., "table_dest": ...}\<close>.\<close>

record table_tuple =
  table_source :: string
  table_dest :: string

text \<open>
  A call of the logger is recorded as it is made: the level, the message and the
  extra positional arguments. A message is a sequence of parts, so that an f-string
  is the sequence of its literal pieces and its interpolated values; the textual
  form Python gives to a list, a dict or an exception is left to the logging
  library.
\<close>

datatype level = INFO | ERROR

datatype log_part =
    Text string
  | RowRepr "string list"
  | RecordRepr table_tuple
  | ExcArg py_error

datatype log_entry = Log level "log_part list" "log_part list"

fun entry_level :: "log_entry \<Rightarrow> level" where
  "entry_level (Log l m a) = l"

text \<open>
  How the logging library turns a recorded call into the text of a log line
  (\<^verbatim>\<open>LogRecord.getMessage\<close>): a call without arguments is rendered as its message;
  a call with arguments is rendered as \<^verbatim>\<open>msg % args\<close>, which raises \<open>TypeError\<close>
  (not all arguments converted) when the message holds no per cent sign at all.
  What \<^verbatim>\<open>%\<close> does with a message that holds a per cent sign depends on the
  conversion specifiers and is not modelled. A standard handler catches the error
  of a record that cannot be rendered and writes no line for it, so the caller of
  the logger goes on; this is why a recorded call is not yet a line in the log.
\<close>

fun has_percent :: "log_part \<Rightarrow> bool" where
  "has_percent (Text s) = (CHR ''%'' \<in> set s)"
| "has_percent (RowRepr row) = list_ex (\<lambda>f. CHR ''%'' \<in> set f) row"
| "has_percent (RecordRepr r) =
     (CHR ''%'' \<in> set (table_source r) \<or> CHR ''%'' \<in> set (table_dest r))"
| "has_percent (ExcArg e) = True"

datatype rendering =
    Rendered "log_part list"
  | RenderingRaises py_error
  | FormatDependent

fun getMessage :: "log_entry \<Rightarrow> rendering" where
  "getMessage (Log l msg args) =
     (if args = [] then Rendered msg
      else if list_ex has_percent msg then FormatDependent
      else RenderingRaises TypeError)"

text \<open>Indexing a list with a constant non-negative index: out of range raises.\<close>

definition py_index :: "'a list \<Rightarrow> nat \<Rightarrow> py_error + 'a" where
  "py_index xs i = (if i < length xs then Inr (xs ! i) else Inl IndexError)"

text \<open>
  \<^verbatim>\<open>s.replace(old, new)\<close> for a pattern \<open>old\<close> of one character: every occurrence is
  replaced, left to right.
\<close>

fun replace1 :: "char \<Rightarrow> string \<Rightarrow> string \<Rightarrow> string" where
  "replace1 old new [] = []"
| "replace1 old new (c # cs) =
     (if c = old then new @ replace1 old new cs else c # replace1 old new cs)"

section \<open>Reading the table list\<close>

text \<open>
  The file system as the function sees it. Opening a path either raises or gives a
  file; the \<^verbatim>\<open>csv.reader\<close> over the file then delivers, at each step, a row (a list
  of fields) or an exception raised while reading; when the events are used up the
  reader is exhausted.
\<close>

datatype read_event = Row "string list" | Raises py_error

type_synonym file_system = "string \<Rightarrow> py_error + read_event list"

text \<open>
  The loop \<^verbatim>\<open>for row in csv_reader\<close>: each row is logged, then indexed at 0 and 1 and
  appended to \<open>table_list\<close>.
\<close>

fun read_rows ::
  "read_event list \<Rightarrow> log_entry list \<Rightarrow> table_tuple list
     \<Rightarrow> log_entry list \<times> (py_error + table_tuple list)" where
  "read_rows [] lg table_list = (lg, Inr table_list)"
| "read_rows (Raises e # rest) lg table_list = (lg, Inl e)"
| "read_rows (Row row # rest) lg table_list =
     (let lg' = lg @ [Log INFO [RowRepr row] []] in
      case py_index row 0 of
        Inl e \<Rightarrow> (lg', Inl e)
      | Inr s \<Rightarrow>
         (case py_index row 1 of
            Inl e \<Rightarrow> (lg', Inl e)
          | Inr d \<Rightarrow>
              read_rows rest lg' (table_list @ [\<lparr>table_source = s, table_dest = d\<rparr>])))"

text \<open>
  The body of the \<^verbatim>\<open>try\<close>: open the file, advance the reader once to skip the
  header (\<^verbatim>\<open>next\<close> on an exhausted reader raises \<open>StopIteration\<close>), run the loop.
\<close>

definition read_body ::
  "file_system \<Rightarrow> string \<Rightarrow> log_entry list
     \<Rightarrow> log_entry list \<times> (py_error + table_tuple list)" where
  "read_body fs table_list_file lg =
     (case fs table_list_file of
        Inl e \<Rightarrow> (lg, Inl e)
      | Inr events \<Rightarrow>
         (case events of
            [] \<Rightarrow> (lg, Inl StopIteration)
          | Raises e # rest \<Rightarrow> (lg, Inl e)
          | Row header # rest \<Rightarrow> read_rows rest lg []))"

definition opening_error :: "string \<Rightarrow> py_error \<Rightarrow> log_entry" where
  "opening_error table_list_file e =
     Log ERROR [Text ''Error opening table_list_file '', Text table_list_file, Text '': '']
       [ExcArg e]"

text \<open>
  \<open>read_table_list\<close> returns the entries it logged and its outcome: \<open>Inl e\<close> when
  the exception \<open>e\<close> leaves the function, \<open>Inr (Some table_list)\<close> when it returns
  the list, \<open>Inr None\<close> when it falls off its end after the handler (Python's
  \<open>None\<close>).
\<close>

definition read_table_list ::
  "file_system \<Rightarrow> string \<Rightarrow> log_entry list \<times> (py_error + table_tuple list option)" where
  "read_table_list fs table_list_file =
     (let lg = [Log INFO [Text ''Reading table_list_file from : '', Text table_list_file] []]
      in case read_body fs table_list_file lg of
           (lg', Inr table_list) \<Rightarrow> (lg', Inr (Some table_list))
         | (lg', Inl e) \<Rightarrow>
             if e = IOError
             then (lg' @ [opening_error table_list_file e], Inr None)
             else (lg', Inl e))"

section \<open>The workflow graph\<close>

text \<open>
  The operators the script instantiates, each with the keyword arguments the script
  passes, in the order it passes them:
  \<^item> \<open>DummyOperator\<close>: \<open>trigger_rule\<close>;
  \<^item> \<open>BigQueryToCloudStorageOperator\<close>: \<open>source_project_dataset_table\<close>,
    \<open>destination_cloud_storage_uris\<close>, \<open>export_format\<close>;
  \<^item> \<open>GoogleCloudStorageToGoogleCloudStorageOperator\<close>: \<open>source_bucket\<close>,
    \<open>source_object\<close>, \<open>destination_bucket\<close>;
  \<^item> \<open>GoogleCloudStorageToBigQueryOperator\<close>: \<open>bucket\<close>, \<open>source_objects\<close>,
    \<open>destination_project_dataset_table\<close>, \<open>source_format\<close>, \<open>write_disposition\<close>,
    \<open>autodetect\<close>.
  The \<open>task_id\<close> is kept in the task record.
\<close>

datatype operator =
    DummyOperator string
  | BigQueryToCloudStorageOperator string "string list" string
  | GoogleCloudStorageToGoogleCloudStorageOperator string string string
  | GoogleCloudStorageToBigQueryOperator string "string list" string string string bool

record task =
  task_id :: string
  operator :: operator

text \<open>Times are microseconds on the local time line, durations microseconds.\<close>

record default_args_t =
  owner :: string
  start_date :: int
  depends_on_past :: bool
  email :: "string list"
  email_on_failure :: bool
  email_on_retry :: bool
  retries :: nat
  retry_delay :: int

text \<open>
  The graph: the tasks in the order they were created and the dependencies in the
  order \<^verbatim>\<open>>>\<close> registered them, each a pair of task identifiers (upstream,
  downstream).
\<close>

record dag =
  dag_id :: string
  default_args :: default_args_t
  schedule_interval :: "string option"
  tasks :: "task list"
  edges :: "(string \<times> string) list"

definition timedelta_days :: "int \<Rightarrow> int" where
  "timedelta_days d = d * 86400000000"

definition timedelta_minutes :: "int \<Rightarrow> int" where
  "timedelta_minutes m = m * 60000000"

definition yesterday :: "int \<Rightarrow> int" where
  "yesterday now = now - timedelta_days 1"

definition default_args_of :: "int \<Rightarrow> default_args_t" where
  "default_args_of now =
     \<lparr>owner = ''airflow'', start_date = yesterday now, depends_on_past = False,
      email = [''''], email_on_failure = False, email_on_retry = False,
      retries = 1, retry_delay = timedelta_minutes 5\<rparr>"

definition source_bucket :: string where
  "source_bucket = ''{{var.value.gcs_source_bucket}}''"

definition dest_bucket :: string where
  "dest_bucket = ''{{var.value.gcs_dest_bucket}}''"

definition start :: task where
  "start = \<lparr>task_id = ''start'', operator = DummyOperator ''all_success''\<rparr>"

definition end_task :: task where
  "end_task = \<lparr>task_id = ''end'', operator = DummyOperator ''all_success''\<rparr>"

text \<open>
  The orchestrator's library (Airflow 1.10) is outside the repository; two of its
  checks decide what the script builds, and are modelled here.

  Every operator constructor first validates its \<open>task_id\<close> with \<open>validate_key\<close>:
  the key must have at most 250 characters and match the regular expression
  \<^verbatim>\<open>^[A-Za-z0-9_\-\.]+$\<close>, otherwise the constructor raises \<open>AirflowException\<close>.
  (With \<^verbatim>\<open>re.match\<close> the final \<^verbatim>\<open>$\<close> also matches just before one trailing newline.)
\<close>

definition key_char :: "char \<Rightarrow> bool" where
  "key_char c =
     (c \<in> set ''ABCDEFGHIJKLMNOPQRSTUVWXYZ'' \<or> c \<in> set ''abcdefghijklmnopqrstuvwxyz'' \<or>
      c \<in> set ''0123456789'' \<or> c \<in> set ''_-.'')"

definition key_text :: "string \<Rightarrow> bool" where
  "key_text k = (k \<noteq> [] \<and> list_all key_char k)"

definition validate_key :: "string \<Rightarrow> bool" where
  "validate_key k =
     (length k \<le> 250 \<and>
      (key_text k \<or> (k \<noteq> [] \<and> last k = CHR 0x0A \<and> key_text (butlast k))))"

text \<open>The call of an operator constructor with the given arguments.\<close>

definition new_operator :: "task \<Rightarrow> py_error + task" where
  "new_operator args = (if validate_key (task_id args) then Inr args else Inl AirflowException)"

text \<open>The keyword arguments of the three constructor calls of the loop body.\<close>

definition BQ_to_GCS_args :: "table_tuple \<Rightarrow> task" where
  "BQ_to_GCS_args record =
     \<lparr>task_id = replace1 CHR '':'' ''_'' (table_source record) @ ''_BQ_to_GCS'',
      operator = BigQueryToCloudStorageOperator
        (table_source record)
        [''gs://'' @ source_bucket @ ''/'' @ table_source record @ ''-*.avro'']
        ''AVRO''\<rparr>"

definition GCS_to_GCS_args :: "table_tuple \<Rightarrow> task" where
  "GCS_to_GCS_args record =
     \<lparr>task_id = replace1 CHR '':'' ''_'' (table_source record) @ ''_GCS_to_GCS'',
      operator = GoogleCloudStorageToGoogleCloudStorageOperator
        source_bucket
        (table_source record @ ''-*.avro'')
        dest_bucket\<rparr>"

definition GCS_to_BQ_args :: "table_tuple \<Rightarrow> task" where
  "GCS_to_BQ_args record =
     \<lparr>task_id = replace1 CHR '':'' ''_'' (table_dest record) @ ''_GCS_to_BQ'',
      operator = GoogleCloudStorageToBigQueryOperator
        dest_bucket
        [table_source record @ ''-*.avro'']
        (table_dest record)
        ''AVRO''
        ''WRITE_TRUNCATE''
        True\<rparr>"

text \<open>The three constructor calls: each gives the task or raises.\<close>

definition BQ_to_GCS :: "table_tuple \<Rightarrow> py_error + task" where
  "BQ_to_GCS record = new_operator (BQ_to_GCS_args record)"

definition GCS_to_GCS :: "table_tuple \<Rightarrow> py_error + task" where
  "GCS_to_GCS record = new_operator (GCS_to_GCS_args record)"

definition GCS_to_BQ :: "table_tuple \<Rightarrow> py_error + task" where
  "GCS_to_BQ record = new_operator (GCS_to_BQ_args record)"

text \<open>
  An operator created inside the \<^verbatim>\<open>with\<close> block is added to the graph, unless the
  graph already holds a task with the same \<open>task_id\<close>: then \<^verbatim>\<open>DAG.add_task\<close> only
  warns and the graph keeps the task it had.
\<close>

definition add_task :: "task \<Rightarrow> dag \<Rightarrow> dag" where
  "add_task t g =
     (if task_id t \<in> set (map task_id (tasks g)) then g else g\<lparr>tasks := tasks g @ [t]\<rparr>)"

text \<open>\<^verbatim>\<open>a >> b\<close> registers \<open>b\<close> downstream of \<open>a\<close>.\<close>

definition set_downstream :: "task \<Rightarrow> task \<Rightarrow> dag \<Rightarrow> dag" where
  "set_downstream a b g = g\<lparr>edges := edges g @ [(task_id a, task_id b)]\<rparr>"

text \<open>
  One pass of the loop body for a record: log, create the three operators (the
  first constructor that raises ends the pass), then
  \<^verbatim>\<open>start >> BQ_to_GCS >> GCS_to_GCS >> GCS_to_BQ >> end\<close>.
\<close>

definition add_chain ::
  "table_tuple \<Rightarrow> log_entry list \<times> dag \<Rightarrow> log_entry list \<times> (py_error + dag)" where
  "add_chain record st =
     (let lg = fst st @ [Log INFO [Text ''Generating tasks to transfer table: '',
                                    RecordRepr record] []]
      in case BQ_to_GCS record of
           Inl e \<Rightarrow> (lg, Inl e)
         | Inr bq_to_gcs \<Rightarrow>
            (let g1 = add_task bq_to_gcs (snd st)
             in case GCS_to_GCS record of
                  Inl e \<Rightarrow> (lg, Inl e)
                | Inr gcs_to_gcs \<Rightarrow>
                   (let g2 = add_task gcs_to_gcs g1
                    in case GCS_to_BQ record of
                         Inl e \<Rightarrow> (lg, Inl e)
                       | Inr gcs_to_bq \<Rightarrow>
                          (let g3 = add_task gcs_to_bq g2;
                               g4 = set_downstream start bq_to_gcs g3;
                               g5 = set_downstream bq_to_gcs gcs_to_gcs g4;
                               g6 = set_downstream gcs_to_gcs gcs_to_bq g5;
                               g7 = set_downstream gcs_to_bq end_task g6
                           in (lg, Inr g7)))))"

fun build_loop ::
  "table_tuple list \<Rightarrow> log_entry list \<times> dag \<Rightarrow> log_entry list \<times> (py_error + dag)" where
  "build_loop [] st = (fst st, Inr (snd st))"
| "build_loop (record # all_records) st =
     (case add_chain record st of
        (lg, Inl e) \<Rightarrow> (lg, Inl e)
      | (lg, Inr g) \<Rightarrow> build_loop all_records (lg, g))"

text \<open>
  What the module reads from outside: the orchestrator's variable store
  (\<^verbatim>\<open>Variable.get\<close> raises \<open>KeyError\<close> for a variable that is not set), the file
  system and the clock.
\<close>

record env =
  variables :: "string \<Rightarrow> string option"
  files :: file_system
  now :: int

definition empty_dag :: "int \<Rightarrow> dag" where
  "empty_dag t =
     \<lparr>dag_id = ''composer_sample_bq_copy_across_locations'',
      default_args = default_args_of t, schedule_interval = None,
      tasks = [], edges = []\<rparr>"

text \<open>
  The \<^verbatim>\<open>with models.DAG(...) as dag\<close> block. An exception that leaves the block is
  the outcome \<open>Inl\<close>; iterating over \<open>None\<close> raises \<open>TypeError\<close>.
\<close>

definition build_dag :: "env \<Rightarrow> log_entry list \<times> (py_error + dag)" where
  "build_dag ev =
     (let g = add_task end_task (add_task start (empty_dag (now ev))) in
      case variables ev ''table_list_file_path'' of
        None \<Rightarrow> ([], Inl KeyError)
      | Some table_list_file_path \<Rightarrow>
         (case read_table_list (files ev) table_list_file_path of
            (lg, Inl e) \<Rightarrow> (lg, Inl e)
          | (lg, Inr None) \<Rightarrow> (lg, Inl TypeError)
          | (lg, Inr (Some all_records)) \<Rightarrow>
              build_loop all_records (lg, g)))"

section \<open>The image lookup snippets\<close>

text \<open>
  The compute client library is outside the repository. A client is modelled by its
  two methods, each taking the keyword arguments in the order \<open>project\<close>, then
  \<open>image\<close> or \<open>family\<close>, and returning an image descriptor or raising. Constructing
  the client (\<^verbatim>\<open>compute_v1.ImagesClient()\<close>) may itself raise; the outcome of the
  constructor is the first argument of the two functions.
\<close>

record 'img images_client =
  get :: "string \<Rightarrow> string \<Rightarrow> py_error + 'img"
  get_from_family :: "string \<Rightarrow> string \<Rightarrow> py_error + 'img"

definition get_image_from_family ::
  "py_error + 'img images_client \<Rightarrow> string \<Rightarrow> string \<Rightarrow> py_error + 'img" where
  "get_image_from_family ImagesClient project family =
     (case ImagesClient of
        Inl e \<Rightarrow> Inl e
      | Inr image_client \<Rightarrow> get_from_family image_client project family)"

definition get_image ::
  "py_error + 'img images_client \<Rightarrow> string \<Rightarrow> string \<Rightarrow> py_error + 'img" where
  "get_image ImagesClient project_id image_name =
     (case ImagesClient of
        Inl e \<Rightarrow> Inl e
      | Inr image_client \<Rightarrow> get image_client project_id image_name)"

section \<open>Vocabulary of the properties\<close>

text \<open>The log entries of one data row and of one record, and the record of a row.\<close>

definition reading_entry :: "string \<Rightarrow> log_entry" where
  "reading_entry p = Log INFO [Text ''Reading table_list_file from : '', Text p] []"

definition row_log :: "string list \<Rightarrow> log_entry" where
  "row_log row = Log INFO [RowRepr row] []"

definition row_record :: "string list \<Rightarrow> table_tuple" where
  "row_record row = \<lparr>table_source = row ! 0, table_dest = row ! 1\<rparr>"

definition chain_log :: "table_tuple \<Rightarrow> log_entry" where
  "chain_log record =
     Log INFO [Text ''Generating tasks to transfer table: '', RecordRepr record] []"

text \<open>The three tasks of a record, their identifiers and the four edges of its chain.\<close>

definition chain_tasks :: "table_tuple \<Rightarrow> task list" where
  "chain_tasks record = [BQ_to_GCS_args record, GCS_to_GCS_args record, GCS_to_BQ_args record]"

definition chain_ids :: "table_tuple \<Rightarrow> string list" where
  "chain_ids r = map task_id (chain_tasks r)"

definition chain_edges :: "table_tuple \<Rightarrow> (string \<times> string) list" where
  "chain_edges record =
     [(task_id start, task_id (BQ_to_GCS_args record)),
      (task_id (BQ_to_GCS_args record), task_id (GCS_to_GCS_args record)),
      (task_id (GCS_to_GCS_args record), task_id (GCS_to_BQ_args record)),
      (task_id (GCS_to_BQ_args record), task_id end_task)]"

definition src_id :: "table_tuple \<Rightarrow> string" where
  "src_id r = replace1 CHR '':'' ''_'' (table_source r)"

definition dst_id :: "table_tuple \<Rightarrow> string" where
  "dst_id r = replace1 CHR '':'' ''_'' (table_dest r)"

text \<open>
  The data rows of a well-formed configuration file: every row has at least two
  fields; the three task identifiers derived from a row are keys the orchestrator
  accepts; and no two rows give the same task identifier, that is, the source
  tables stay different after the colons are replaced, and so do the destination
  tables. (The script does not remove duplicates; a file with duplicate identifiers
  is left to the orchestrator to reject.)
\<close>

definition valid_row_ids :: "string list \<Rightarrow> bool" where
  "valid_row_ids r =
     (validate_key (replace1 CHR '':'' ''_'' (r ! 0) @ ''_BQ_to_GCS'') \<and>
      validate_key (replace1 CHR '':'' ''_'' (r ! 0) @ ''_GCS_to_GCS'') \<and>
      validate_key (replace1 CHR '':'' ''_'' (r ! 1) @ ''_GCS_to_BQ''))"

definition valid_record :: "table_tuple \<Rightarrow> bool" where
  "valid_record r = list_all validate_key (chain_ids r)"

definition well_formed_rows :: "string list list \<Rightarrow> bool" where
  "well_formed_rows rows =
     (list_all (\<lambda>r. 2 \<le> length r) rows \<and>
      list_all valid_row_ids rows \<and>
      distinct (map (\<lambda>r. replace1 CHR '':'' ''_'' (r ! 0)) rows) \<and>
      distinct (map (\<lambda>r. replace1 CHR '':'' ''_'' (r ! 1)) rows))"

text \<open>
  The \<open>i\<close>-th chain of a graph: the three tasks created by the \<open>i\<close>-th pass of the
  loop, after the two sentinels.
\<close>

definition chain_at :: "dag \<Rightarrow> nat \<Rightarrow> task list" where
  "chain_at g i = take 3 (drop (2 + 3 * i) (tasks g))"








text \<open>The structure of a graph: its tasks and its edges.\<close>

definition graph_structure :: "dag \<Rightarrow> task list \<times> (string \<times> string) list" where
  "graph_structure g = (tasks g, edges g)"

section \<open>Example environments\<close>

text \<open>
  A variable store that holds only \<open>table_list_file_path\<close>, and a file system that
  holds one file.
\<close>

definition path_variable :: "string \<Rightarrow> string \<Rightarrow> string option" where
  "path_variable p v = (if v = ''table_list_file_path'' then Some p else None)"

definition one_file :: "string \<Rightarrow> read_event list \<Rightarrow> file_system" where
  "one_file p events q = (if q = p then Inr events else Inl IOError)"

definition example_rows :: "string list list" where
  "example_rows = [[''proj:ds.src'', ''proj:ds.dst''], [''p:d.a'', ''p:d.b'']]"

text \<open>A file with a header and two data rows.\<close>

definition example_env :: env where
  "example_env =
     \<lparr>variables = path_variable ''table_list.csv'',
      files = one_file ''table_list.csv'' (Row [''source'', ''dest''] # map Row example_rows),
      now = 1000\<rparr>"

text \<open>The same contents under another path, read at another time.\<close>

definition moved_env :: env where
  "moved_env =
     \<lparr>variables = path_variable ''copy.csv'',
      files = one_file ''copy.csv'' (Row [''source'', ''dest''] # map Row example_rows),
      now = 987654321\<rparr>"

text \<open>A file with nothing but the header.\<close>

definition header_only_env :: env where
  "header_only_env =
     \<lparr>variables = path_variable ''table_list.csv'',
      files = one_file ''table_list.csv'' [Row [''source'', ''dest'']],
      now = 1000\<rparr>"

text \<open>A file whose second data row has one field only.\<close>

definition short_row_env :: env where
  "short_row_env =
     \<lparr>variables = path_variable ''table_list.csv'',
      files = one_file ''table_list.csv''
        [Row [''source'', ''dest''], Row [''p:d.a'', ''p:d.b''], Row [''p:d.c'']],
      now = 1000\<rparr>"

text \<open>An empty file, a path that cannot be opened, and a read that fails midway.\<close>

definition empty_file_env :: env where
  "empty_file_env =
     \<lparr>variables = path_variable ''table_list.csv'',
      files = one_file ''table_list.csv'' [],
      now = 1000\<rparr>"

definition broken_read_env :: env where
  "broken_read_env =
     \<lparr>variables = path_variable ''table_list.csv'',
      files = one_file ''table_list.csv''
        [Row [''source'', ''dest''], Row [''p:d.a'', ''p:d.b''], Raises IOError],
      now = 1000\<rparr>"

text \<open>A file whose only data row names a table with a space in it.\<close>

definition invalid_id_env :: env where
  "invalid_id_env =
     \<lparr>variables = path_variable ''table_list.csv'',
      files = one_file ''table_list.csv'' [Row [''source'', ''dest''], Row [''my table'', ''p:d.b'']],
      now = 1000\<rparr>"

text \<open>A compute client that knows one image and one family.\<close>

definition example_client :: "string images_client" where
  "example_client =
     \<lparr>get = (\<lambda>project image.
        if project = ''debian-cloud'' \<and> image = ''debian-12-v1''
        then Inr ''image debian-12-v1'' else Inl (ClientError ''not found'')),
      get_from_family = (\<lambda>project family.
        if project = ''debian-cloud'' \<and> family = ''debian-12''
        then Inr ''image debian-12-v1'' else Inl (ClientError ''not found''))\<rparr>"

section \<open>Properties of reading and building\<close>

lemma read_rows_step:
  "2 \<le> length row \<Longrightarrow>
   read_rows (Row row # rest) lg acc = read_rows rest (lg @ [row_log row]) (acc @ [row_record row])"
  by (auto simp add: py_index_def row_log_def row_record_def)

lemma read_rows_short:
  "length row < 2 \<Longrightarrow> read_rows (Row row # rest) lg acc = (lg @ [row_log row], Inl IndexError)"
  by (auto simp add: py_index_def row_log_def)

lemma read_rows_prefix:
  "\<forall>r\<in>set rows. 2 \<le> length r \<Longrightarrow>
   read_rows (map Row rows @ evs) lg acc =
     read_rows evs (lg @ map row_log rows) (acc @ map row_record rows)"
proof (induction rows arbitrary: lg acc)
  case Nil
  show ?case by simp
next
  case (Cons r rows)
  then have "2 \<le> length r" and rest: "\<forall>r\<in>set rows. 2 \<le> length r" by simp_all
  then show ?case
    using Cons.IH [OF rest] by (simp add: read_rows_step del: read_rows.simps)
qed

lemma read_rows_all:
  "\<forall>r\<in>set rows. 2 \<le> length r \<Longrightarrow>
   read_rows (map Row rows) lg acc = (lg @ map row_log rows, Inr (acc @ map row_record rows))"
  using read_rows_prefix [of rows "[]" lg acc] by simp

lemma read_rows_malformed:
  assumes "\<exists>r\<in>set rows. length r < 2"
  shows "\<exists>pre r. set pre \<subseteq> set rows \<and> r \<in> set rows \<and>
           read_rows (map Row rows) lg acc = (lg @ map row_log pre @ [row_log r], Inl IndexError)"
proof -
  from assms obtain pre r post where
    rows: "rows = pre @ r # post" and short: "length r < 2"
    and pre: "\<forall>q\<in>set pre. \<not> length q < 2"
    by (auto simp: split_list_first_prop_iff)
  from pre have "\<forall>q\<in>set pre. 2 \<le> length q" by auto
  then have "read_rows (map Row rows) lg acc =
      read_rows (Row r # map Row post) (lg @ map row_log pre) (acc @ map row_record pre)"
    using read_rows_prefix [of pre "Row r # map Row post" lg acc] by (simp add: rows)
  also have "\<dots> = ((lg @ map row_log pre) @ [row_log r], Inl IndexError)"
    using short by (rule read_rows_short)
  finally show ?thesis using rows by auto
qed

lemma read_table_list_ok:
  assumes "fs path = Inr (Row header # map Row rows)"
    and "\<forall>r\<in>set rows. 2 \<le> length r"
  shows "read_table_list fs path =
     (Log INFO [Text ''Reading table_list_file from : '', Text path] [] # map row_log rows,
      Inr (Some (map row_record rows)))"
  using assms by (simp add: read_table_list_def read_body_def read_rows_all)

lemma replace1_no_old: "old \<notin> set new \<Longrightarrow> old \<notin> set (replace1 old new s)"
  by (induction s) auto

lemma replace1_map:
  "replace1 old [new] s = map (\<lambda>c. if c = old then new else c) s"
  by (induction s) auto

lemma ids_ne1: "a @ ''_BQ_to_GCS'' \<noteq> b @ ''_GCS_to_GCS''"
proof
  assume "a @ ''_BQ_to_GCS'' = b @ ''_GCS_to_GCS''"
  then have "take 10 (rev (a @ ''_BQ_to_GCS'')) = take 10 (rev (b @ ''_GCS_to_GCS''))"
    by simp
  then show False by simp
qed

lemma ids_ne2: "a @ ''_BQ_to_GCS'' \<noteq> b @ ''_GCS_to_BQ''"
proof
  assume "a @ ''_BQ_to_GCS'' = b @ ''_GCS_to_BQ''"
  then have "last (a @ ''_BQ_to_GCS'') = last (b @ ''_GCS_to_BQ'')" by simp
  then show False by simp
qed

lemma ids_ne3: "a @ ''_GCS_to_GCS'' \<noteq> b @ ''_GCS_to_BQ''"
proof
  assume "a @ ''_GCS_to_GCS'' = b @ ''_GCS_to_BQ''"
  then have "last (a @ ''_GCS_to_GCS'') = last (b @ ''_GCS_to_BQ'')" by simp
  then show False by simp
qed

lemma ids_ne_start: "a @ ''_BQ_to_GCS'' \<noteq> ''start''" "a @ ''_GCS_to_GCS'' \<noteq> ''start''"
  "a @ ''_GCS_to_BQ'' \<noteq> ''start''" "a @ ''_BQ_to_GCS'' \<noteq> ''end''" "a @ ''_GCS_to_GCS'' \<noteq> ''end''"
  "a @ ''_GCS_to_BQ'' \<noteq> ''end''"
proof -
  have len: "\<And>s t::string. length s \<noteq> length t \<Longrightarrow> s \<noteq> t" by auto
  show "a @ ''_BQ_to_GCS'' \<noteq> ''start''" by (rule len) simp
  show "a @ ''_GCS_to_GCS'' \<noteq> ''start''" by (rule len) simp
  show "a @ ''_GCS_to_BQ'' \<noteq> ''start''" by (rule len) simp
  show "a @ ''_BQ_to_GCS'' \<noteq> ''end''" by (rule len) simp
  show "a @ ''_GCS_to_GCS'' \<noteq> ''end''" by (rule len) simp
  show "a @ ''_GCS_to_BQ'' \<noteq> ''end''" by (rule len) simp
qed

lemma chain_ids_eq:
  "chain_ids r = [src_id r @ ''_BQ_to_GCS'', src_id r @ ''_GCS_to_GCS'', dst_id r @ ''_GCS_to_BQ'']"
  by (simp add: chain_ids_def chain_tasks_def BQ_to_GCS_args_def GCS_to_GCS_args_def GCS_to_BQ_args_def
        src_id_def dst_id_def)

lemmas ids_ne = ids_ne1 ids_ne2 ids_ne3 ids_ne1 [symmetric] ids_ne2 [symmetric]
  ids_ne3 [symmetric] ids_ne_start

lemma chain_ids_distinct: "distinct (chain_ids r)"
  unfolding chain_ids_eq using ids_ne1 [of "src_id r" "src_id r"] ids_ne2 [of "src_id r" "dst_id r"]
    ids_ne3 [of "src_id r" "dst_id r"] by simp

lemma chain_ids_disjoint:
  assumes "src_id r \<noteq> src_id r'" and "dst_id r \<noteq> dst_id r'"
  shows "set (chain_ids r) \<inter> set (chain_ids r') = {}"
  unfolding chain_ids_eq using assms by (simp add: ids_ne)

lemma chain_ids_no_sentinel: "''start'' \<notin> set (chain_ids r)" "''end'' \<notin> set (chain_ids r)"
  unfolding chain_ids_eq using ids_ne_start [of "src_id r"] ids_ne_start [of "dst_id r"]
  by auto


lemma distinct_all_ids:
  assumes "distinct (map src_id recs)" and "distinct (map dst_id recs)"
  shows "distinct (concat (map chain_ids recs))"
  using assms
proof (induction recs)
  case Nil
  show ?case by simp
next
  case (Cons r recs)
  have "set (chain_ids r) \<inter> set (chain_ids r') = {}" if "r' \<in> set recs" for r'
  proof (rule chain_ids_disjoint)
    show "src_id r \<noteq> src_id r'" using Cons.prems(1) that by auto
    show "dst_id r \<noteq> dst_id r'" using Cons.prems(2) that by auto
  qed
  then have "set (chain_ids r) \<inter> set (concat (map chain_ids recs)) = {}"
    by auto
  moreover have "distinct (concat (map chain_ids recs))"
    using Cons by simp
  ultimately show ?case by (simp add: chain_ids_distinct)
qed

lemma take_drop_chain:
  "i < length recs \<Longrightarrow>
   take 3 (drop (3 * i) (concat (map chain_tasks recs))) = chain_tasks (recs ! i)"
proof (induction recs arbitrary: i)
  case Nil
  then show ?case by simp
next
  case (Cons r recs)
  have len: "length (chain_tasks r) = 3" by (simp add: chain_tasks_def)
  show ?case
  proof (cases i)
    case 0
    then show ?thesis using len by simp
  next
    case (Suc k)
    then have "k < length recs" using Cons.prems by simp
    from Cons.IH [OF this] show ?thesis using Suc len by simp
  qed
qed

lemma row_record_ids:
  "map src_id (map row_record rows) = map (\<lambda>r. replace1 CHR '':'' ''_'' (r ! 0)) rows"
  "map dst_id (map row_record rows) = map (\<lambda>r. replace1 CHR '':'' ''_'' (r ! 1)) rows"
  by (simp_all add: src_id_def dst_id_def row_record_def)



lemma sentinels_valid: "validate_key (task_id start)" "validate_key (task_id end_task)"
  by (simp_all add: validate_key_def key_text_def key_char_def start_def end_task_def)

lemma add_task_new:
  "task_id t \<notin> set (map task_id (tasks g)) \<Longrightarrow> add_task t g = g\<lparr>tasks := tasks g @ [t]\<rparr>"
  by (simp add: add_task_def)

lemma add_chain_ok:
  assumes valid: "valid_record r"
    and fresh: "set (chain_ids r) \<inter> set (map task_id (tasks g)) = {}"
  shows "add_chain r (lg, g) =
     (lg @ [chain_log r],
      Inr (g\<lparr>tasks := tasks g @ chain_tasks r, edges := edges g @ chain_edges r\<rparr>))"
proof -
  have dist: "distinct (chain_ids r)" by (rule chain_ids_distinct)
  have v: "validate_key (task_id (BQ_to_GCS_args r))" "validate_key (task_id (GCS_to_GCS_args r))"
    "validate_key (task_id (GCS_to_BQ_args r))"
    using valid by (simp_all add: valid_record_def chain_ids_def chain_tasks_def)
  have c: "BQ_to_GCS r = Inr (BQ_to_GCS_args r)" "GCS_to_GCS r = Inr (GCS_to_GCS_args r)"
    "GCS_to_BQ r = Inr (GCS_to_BQ_args r)"
    using v by (simp_all add: BQ_to_GCS_def GCS_to_GCS_def GCS_to_BQ_def new_operator_def)
  let ?a = "BQ_to_GCS_args r" and ?b = "GCS_to_GCS_args r" and ?c = "GCS_to_BQ_args r"
  have ids: "chain_ids r = [task_id ?a, task_id ?b, task_id ?c]"
    by (simp add: chain_ids_def chain_tasks_def)
  have 1: "add_task ?a g = g\<lparr>tasks := tasks g @ [?a]\<rparr>"
    using fresh by (intro add_task_new) (auto simp: ids)
  have 2: "add_task ?b (g\<lparr>tasks := tasks g @ [?a]\<rparr>) = g\<lparr>tasks := tasks g @ [?a, ?b]\<rparr>"
    using fresh dist by (auto simp: ids add_task_def)
  have 3: "add_task ?c (g\<lparr>tasks := tasks g @ [?a, ?b]\<rparr>) = g\<lparr>tasks := tasks g @ [?a, ?b, ?c]\<rparr>"
    using fresh dist by (auto simp: ids add_task_def)
  show ?thesis
    by (simp add: add_chain_def c 1 2 3 Let_def set_downstream_def chain_tasks_def
          chain_edges_def chain_log_def)
qed

lemma build_loop_ok:
  assumes "list_all valid_record recs"
    and "distinct (map task_id (tasks g) @ concat (map chain_ids recs))"
  shows "build_loop recs (lg, g) =
     (lg @ map chain_log recs,
      Inr (g\<lparr>tasks := tasks g @ concat (map chain_tasks recs),
             edges := edges g @ concat (map chain_edges recs)\<rparr>))"
  using assms
proof (induction recs arbitrary: lg g)
  case Nil
  show ?case by simp
next
  case (Cons r recs)
  let ?g = "g\<lparr>tasks := tasks g @ chain_tasks r, edges := edges g @ chain_edges r\<rparr>"
  have valid: "valid_record r" and rest: "list_all valid_record recs"
    using Cons.prems(1) by simp_all
  have fresh: "set (chain_ids r) \<inter> set (map task_id (tasks g)) = {}"
    using Cons.prems(2) by auto
  have step: "add_chain r (lg, g) = (lg @ [chain_log r], Inr ?g)"
    using valid fresh by (rule add_chain_ok)
  have "map task_id (tasks ?g) = map task_id (tasks g) @ chain_ids r"
    by (simp add: chain_ids_def)
  then have "distinct (map task_id (tasks ?g) @ concat (map chain_ids recs))"
    using Cons.prems(2) by simp
  from Cons.IH [OF rest this, of "lg @ [chain_log r]"] show ?case
    by (simp add: step)
qed

lemma valid_row_record: "valid_record (row_record r) = valid_row_ids r"
  by (simp add: valid_record_def valid_row_ids_def chain_ids_eq src_id_def dst_id_def
        row_record_def)

lemma build_dag_ok:
  assumes "variables ev ''table_list_file_path'' = Some path"
    and "files ev path = Inr (Row header # map Row rows)"
    and "well_formed_rows rows"
  shows "build_dag ev =
     (Log INFO [Text ''Reading table_list_file from : '', Text path] [] # map row_log rows
        @ map chain_log (map row_record rows),
      Inr \<lparr>dag_id = ''composer_sample_bq_copy_across_locations'',
           default_args = default_args_of (now ev), schedule_interval = None,
           tasks = start # end_task # concat (map chain_tasks (map row_record rows)),
           edges = concat (map chain_edges (map row_record rows))\<rparr>)"
proof -
  let ?recs = "map row_record rows"
  let ?g = "add_task end_task (add_task start (empty_dag (now ev)))"
  from assms(3) have len: "\<forall>r\<in>set rows. 2 \<le> length r"
    by (simp add: well_formed_rows_def list_all_iff)
  have valid: "list_all valid_record ?recs"
    using assms(3) by (simp add: well_formed_rows_def list_all_iff valid_row_record)
  from assms(3) have d1: "distinct (map src_id ?recs)" and d2: "distinct (map dst_id ?recs)"
    unfolding row_record_ids by (simp_all add: well_formed_rows_def)
  have g: "?g = \<lparr>dag_id = ''composer_sample_bq_copy_across_locations'',
           default_args = default_args_of (now ev), schedule_interval = None,
           tasks = [start, end_task], edges = []\<rparr>"
    by (simp add: add_task_def empty_dag_def start_def end_task_def)
  have dis: "distinct (concat (map chain_ids ?recs))" using d1 d2 by (rule distinct_all_ids)
  have nosent: "''start'' \<notin> set (concat (map chain_ids ?recs))"
     "''end'' \<notin> set (concat (map chain_ids ?recs))"
    using chain_ids_no_sentinel by auto
  have ids: "map task_id (tasks ?g) = [''start'', ''end'']"
    unfolding g by (simp add: start_def end_task_def)
  have "distinct (map task_id (tasks ?g) @ concat (map chain_ids ?recs))"
    unfolding ids using dis nosent by simp
  from build_loop_ok [OF valid this]
  have loop: "build_loop ?recs (lg, ?g) =
     (lg @ map chain_log ?recs,
      Inr (?g\<lparr>tasks := tasks ?g @ concat (map chain_tasks ?recs),
              edges := edges ?g @ concat (map chain_edges ?recs)\<rparr>))" for lg .
  show ?thesis
    using assms(1) read_table_list_ok [of "files ev" path header rows, OF assms(2) len]
    by (simp add: build_dag_def loop) (simp add: g)
qed



text \<open>
  Claim C2, as amended. For a file with the header row and no data row the graph
  holds the two sentinels \<open>start\<close> and \<open>end\<close> and nothing else, and it has no edge:
  the only statement that adds edges is the last line of the loop body, which does
  not run, so \<open>start\<close> and \<open>end\<close> are not connected.
\<close>

theorem header_only_graph:
  assumes "variables ev ''table_list_file_path'' = Some path"
    and "files ev path = Inr [Row header]"
  shows "\<exists>lg g. build_dag ev = (lg, Inr g) \<and> tasks g = [start, end_task] \<and> edges g = []"
proof -
  have "well_formed_rows []" by (simp add: well_formed_rows_def)
  from build_dag_ok [of ev path header "[]", OF _ _ this] assms show ?thesis by simp
qed

theorem header_only_graph_witness:
  "\<exists>lg g. build_dag header_only_env = (lg, Inr g) \<and>
     map task_id (tasks g) = [''start'', ''end''] \<and> edges g = []"
proof -
  have v: "variables header_only_env ''table_list_file_path'' = Some ''table_list.csv''"
    by (simp add: header_only_env_def path_variable_def)
  have f: "files header_only_env ''table_list.csv'' = Inr [Row [''source'', ''dest'']]"
    by (simp add: header_only_env_def one_file_def)
  from header_only_graph [OF v f] show ?thesis
    by (auto simp: start_def end_task_def)
qed

text \<open>
  The edge from \<open>start\<close> to \<open>end\<close> that the claim states is not there: the edge
  list of the graph built from a header-only file is empty.
\<close>

theorem header_only_no_edge_counterexample:
  "map_sum id tasks (snd (build_dag header_only_env)) = Inr [start, end_task] \<and>
   map_sum id edges (snd (build_dag header_only_env)) = Inr [] \<and>
   (task_id start, task_id end_task) \<notin> set []"
  by (simp add: build_dag_def header_only_env_def path_variable_def one_file_def
        read_table_list_def read_body_def add_task_def empty_dag_def start_def end_task_def)

text \<open>
  Claim C4. The three task identifiers derived from a record contain no colon: each
  is the table identifier (source for the export and the relocation, destination
  for the import) with every colon replaced by an underscore, followed by a fixed
  suffix without colon. This holds for every record, with or without colons. A
  constructor call either raises or gives the task with exactly this identifier.
\<close>

theorem task_ids_have_no_colon:
  "CHR '':'' \<notin> set (task_id (BQ_to_GCS_args record)) \<and>
   CHR '':'' \<notin> set (task_id (GCS_to_GCS_args record)) \<and>
   CHR '':'' \<notin> set (task_id (GCS_to_BQ_args record)) \<and>
   task_id (BQ_to_GCS_args record) =
     map (\<lambda>c. if c = CHR '':'' then CHR ''_'' else c) (table_source record) @ ''_BQ_to_GCS'' \<and>
   task_id (GCS_to_GCS_args record) =
     map (\<lambda>c. if c = CHR '':'' then CHR ''_'' else c) (table_source record) @ ''_GCS_to_GCS'' \<and>
   task_id (GCS_to_BQ_args record) =
     map (\<lambda>c. if c = CHR '':'' then CHR ''_'' else c) (table_dest record) @ ''_GCS_to_BQ'' \<and>
   (BQ_to_GCS record = Inr (BQ_to_GCS_args record) \<or> BQ_to_GCS record = Inl AirflowException) \<and>
   (GCS_to_GCS record = Inr (GCS_to_GCS_args record) \<or>
    GCS_to_GCS record = Inl AirflowException) \<and>
   (GCS_to_BQ record = Inr (GCS_to_BQ_args record) \<or> GCS_to_BQ record = Inl AirflowException)"
proof -
  have no: "CHR '':'' \<notin> set (replace1 CHR '':'' ''_'' s)" for s
    by (rule replace1_no_old) simp
  have eq: "replace1 CHR '':'' ''_'' s = map (\<lambda>c. if c = CHR '':'' then CHR ''_'' else c) s" for s
    by (rule replace1_map)
  have a: "CHR '':'' \<notin> set (task_id (BQ_to_GCS_args record))"
    using no [of "table_source record"] by (simp add: BQ_to_GCS_args_def)
  have b: "CHR '':'' \<notin> set (task_id (GCS_to_GCS_args record))"
    using no [of "table_source record"] by (simp add: GCS_to_GCS_args_def)
  have c: "CHR '':'' \<notin> set (task_id (GCS_to_BQ_args record))"
    using no [of "table_dest record"] by (simp add: GCS_to_BQ_args_def)
  have d: "task_id (BQ_to_GCS_args record) =
     map (\<lambda>c. if c = CHR '':'' then CHR ''_'' else c) (table_source record) @ ''_BQ_to_GCS''"
    by (simp add: BQ_to_GCS_args_def eq)
  have e: "task_id (GCS_to_GCS_args record) =
     map (\<lambda>c. if c = CHR '':'' then CHR ''_'' else c) (table_source record) @ ''_GCS_to_GCS''"
    by (simp add: GCS_to_GCS_args_def eq)
  have f: "task_id (GCS_to_BQ_args record) =
     map (\<lambda>c. if c = CHR '':'' then CHR ''_'' else c) (table_dest record) @ ''_GCS_to_BQ''"
    by (simp add: GCS_to_BQ_args_def eq)
  have g: "BQ_to_GCS record = Inr (BQ_to_GCS_args record) \<or>
      BQ_to_GCS record = Inl AirflowException"
    by (simp add: BQ_to_GCS_def new_operator_def)
  have h: "GCS_to_GCS record = Inr (GCS_to_GCS_args record) \<or>
      GCS_to_GCS record = Inl AirflowException"
    by (simp add: GCS_to_GCS_def new_operator_def)
  have i: "GCS_to_BQ record = Inr (GCS_to_BQ_args record) \<or>
      GCS_to_BQ record = Inl AirflowException"
    by (simp add: GCS_to_BQ_def new_operator_def)
  from a b c d e f g h i show ?thesis by blast
qed

theorem task_ids_have_no_colon_witness:
  "CHR '':'' \<in> set ''proj:ds.src'' \<and> CHR '':'' \<in> set ''proj:ds.dst'' \<and>
   task_id (BQ_to_GCS_args \<lparr>table_source = ''proj:ds.src'', table_dest = ''proj:ds.dst''\<rparr>) =
     ''proj_ds.src_BQ_to_GCS'' \<and>
   task_id (GCS_to_GCS_args \<lparr>table_source = ''proj:ds.src'', table_dest = ''proj:ds.dst''\<rparr>) =
     ''proj_ds.src_GCS_to_GCS'' \<and>
   task_id (GCS_to_BQ_args \<lparr>table_source = ''proj:ds.src'', table_dest = ''proj:ds.dst''\<rparr>) =
     ''proj_ds.dst_GCS_to_BQ'' \<and>
   CHR '':'' \<notin> set (task_id
     (BQ_to_GCS_args \<lparr>table_source = ''proj:ds.src'', table_dest = ''proj:ds.dst''\<rparr>))"
  using task_ids_have_no_colon [of "\<lparr>table_source = ''proj:ds.src'', table_dest = ''proj:ds.dst''\<rparr>"]
  by simp

lemma chain_operators:
  "map operator (chain_tasks r) =
       [BigQueryToCloudStorageOperator
          (table_source r)
          [''gs://{{var.value.gcs_source_bucket}}/'' @ table_source r @ ''-*.avro'']
          ''AVRO'',
        GoogleCloudStorageToGoogleCloudStorageOperator
          ''{{var.value.gcs_source_bucket}}''
          (table_source r @ ''-*.avro'')
          ''{{var.value.gcs_dest_bucket}}'',
        GoogleCloudStorageToBigQueryOperator
          ''{{var.value.gcs_dest_bucket}}''
          [table_source r @ ''-*.avro'']
          (table_dest r)
          ''AVRO''
          ''WRITE_TRUNCATE''
          True]"
  by (simp add: chain_tasks_def BQ_to_GCS_args_def GCS_to_GCS_args_def GCS_to_BQ_args_def
        source_bucket_def dest_bucket_def)

lemma constructed_is_args:
  "BQ_to_GCS r = Inr t \<Longrightarrow> t = BQ_to_GCS_args r"
  "GCS_to_GCS r = Inr t \<Longrightarrow> t = GCS_to_GCS_args r"
  "GCS_to_BQ r = Inr t \<Longrightarrow> t = GCS_to_BQ_args r"
  by (simp_all add: BQ_to_GCS_def GCS_to_GCS_def GCS_to_BQ_def new_operator_def
        split: if_splits)

text \<open>
  Claim C8. Every task that the three constructor calls of a record give carries
  the declared parameters: the export reads the source table and writes \<open>AVRO\<close> to
  the wildcard-named objects \<^verbatim>\<open>gs://<source bucket>/<source table>-*.avro\<close>; the
  relocation copies the objects \<^verbatim>\<open><source table>-*.avro\<close> from the source bucket to
  the destination bucket; the import reads these objects from the destination
  bucket as \<open>AVRO\<close> into the destination table with write disposition
  \<open>WRITE_TRUNCATE\<close> and \<open>autodetect\<close> set. And in the graph built from a well-formed
  file, the chain of row \<open>i\<close> holds exactly these three operators.
\<close>

theorem chain_operator_parameters:
  "(BQ_to_GCS record = Inr export_task \<longrightarrow>
      operator export_task =
        BigQueryToCloudStorageOperator
          (table_source record)
          [''gs://{{var.value.gcs_source_bucket}}/'' @ table_source record @ ''-*.avro'']
          ''AVRO'') \<and>
   (GCS_to_GCS record = Inr relocate_task \<longrightarrow>
      operator relocate_task =
        GoogleCloudStorageToGoogleCloudStorageOperator
          ''{{var.value.gcs_source_bucket}}''
          (table_source record @ ''-*.avro'')
          ''{{var.value.gcs_dest_bucket}}'') \<and>
   (GCS_to_BQ record = Inr import_task \<longrightarrow>
      operator import_task =
        GoogleCloudStorageToBigQueryOperator
          ''{{var.value.gcs_dest_bucket}}''
          [table_source record @ ''-*.avro'']
          (table_dest record)
          ''AVRO''
          ''WRITE_TRUNCATE''
          True) \<and>
   (variables ev ''table_list_file_path'' = Some path \<and>
    files ev path = Inr (Row header # map Row rows) \<and>
    well_formed_rows rows \<and> i < length rows \<longrightarrow>
      (\<exists>lg g. build_dag ev = (lg, Inr g) \<and>
         map operator (chain_at g i) =
           [BigQueryToCloudStorageOperator
              (rows ! i ! 0)
              [''gs://{{var.value.gcs_source_bucket}}/'' @ rows ! i ! 0 @ ''-*.avro'']
              ''AVRO'',
            GoogleCloudStorageToGoogleCloudStorageOperator
              ''{{var.value.gcs_source_bucket}}''
              (rows ! i ! 0 @ ''-*.avro'')
              ''{{var.value.gcs_dest_bucket}}'',
            GoogleCloudStorageToBigQueryOperator
              ''{{var.value.gcs_dest_bucket}}''
              [rows ! i ! 0 @ ''-*.avro'']
              (rows ! i ! 1)
              ''AVRO''
              ''WRITE_TRUNCATE''
              True]))"
proof (intro conjI impI)
  have ops: "map operator [BQ_to_GCS_args record, GCS_to_GCS_args record, GCS_to_BQ_args record] =
       [BigQueryToCloudStorageOperator
          (table_source record)
          [''gs://{{var.value.gcs_source_bucket}}/'' @ table_source record @ ''-*.avro'']
          ''AVRO'',
        GoogleCloudStorageToGoogleCloudStorageOperator
          ''{{var.value.gcs_source_bucket}}''
          (table_source record @ ''-*.avro'')
          ''{{var.value.gcs_dest_bucket}}'',
        GoogleCloudStorageToBigQueryOperator
          ''{{var.value.gcs_dest_bucket}}''
          [table_source record @ ''-*.avro'']
          (table_dest record)
          ''AVRO''
          ''WRITE_TRUNCATE''
          True]"
    using chain_operators [of "record"] by (simp only: chain_tasks_def)
  {
    assume "BQ_to_GCS record = Inr export_task"
    then have "export_task = BQ_to_GCS_args record" by (rule constructed_is_args)
    then show "operator export_task =
        BigQueryToCloudStorageOperator
          (table_source record)
          [''gs://{{var.value.gcs_source_bucket}}/'' @ table_source record @ ''-*.avro'']
          ''AVRO''"
      using ops by simp
  }
  {
    assume "GCS_to_GCS record = Inr relocate_task"
    then have "relocate_task = GCS_to_GCS_args record" by (rule constructed_is_args)
    then show "operator relocate_task =
        GoogleCloudStorageToGoogleCloudStorageOperator
          ''{{var.value.gcs_source_bucket}}''
          (table_source record @ ''-*.avro'')
          ''{{var.value.gcs_dest_bucket}}''"
      using ops by simp
  }
  {
    assume "GCS_to_BQ record = Inr import_task"
    then have "import_task = GCS_to_BQ_args record" by (rule constructed_is_args)
    then show "operator import_task =
        GoogleCloudStorageToBigQueryOperator
          ''{{var.value.gcs_dest_bucket}}''
          [table_source record @ ''-*.avro'']
          (table_dest record)
          ''AVRO''
          ''WRITE_TRUNCATE''
          True"
      using ops by simp
  }
  {
    assume a: "variables ev ''table_list_file_path'' = Some path \<and>
      files ev path = Inr (Row header # map Row rows) \<and>
      well_formed_rows rows \<and> i < length rows"
    then have v: "variables ev ''table_list_file_path'' = Some path"
      and f: "files ev path = Inr (Row header # map Row rows)"
      and w: "well_formed_rows rows" and i: "i < length rows"
      by simp_all
    from build_dag_ok [OF v f w] obtain lg g where
      run: "build_dag ev = (lg, Inr g)"
      and tasks: "tasks g = start # end_task # concat (map chain_tasks (map row_record rows))"
      by simp
    have i': "i < length (map row_record rows)" using i by simp
    have "chain_at g i = chain_tasks (map row_record rows ! i)"
      using take_drop_chain [OF i'] by (simp add: chain_at_def tasks)
    also have "\<dots> = chain_tasks (row_record (rows ! i))"
      using i by simp
    finally have "map operator (chain_at g i) = map operator (chain_tasks (row_record (rows ! i)))"
      by simp
    then have o: "map operator (chain_at g i) =
           [BigQueryToCloudStorageOperator
              (rows ! i ! 0)
              [''gs://{{var.value.gcs_source_bucket}}/'' @ rows ! i ! 0 @ ''-*.avro'']
              ''AVRO'',
            GoogleCloudStorageToGoogleCloudStorageOperator
              ''{{var.value.gcs_source_bucket}}''
              (rows ! i ! 0 @ ''-*.avro'')
              ''{{var.value.gcs_dest_bucket}}'',
            GoogleCloudStorageToBigQueryOperator
              ''{{var.value.gcs_dest_bucket}}''
              [rows ! i ! 0 @ ''-*.avro'']
              (rows ! i ! 1)
              ''AVRO''
              ''WRITE_TRUNCATE''
              True]"
      unfolding chain_operators by (simp add: row_record_def)
    show "\<exists>lg g. build_dag ev = (lg, Inr g) \<and>
         map operator (chain_at g i) =
           [BigQueryToCloudStorageOperator
              (rows ! i ! 0)
              [''gs://{{var.value.gcs_source_bucket}}/'' @ rows ! i ! 0 @ ''-*.avro'']
              ''AVRO'',
            GoogleCloudStorageToGoogleCloudStorageOperator
              ''{{var.value.gcs_source_bucket}}''
              (rows ! i ! 0 @ ''-*.avro'')
              ''{{var.value.gcs_dest_bucket}}'',
            GoogleCloudStorageToBigQueryOperator
              ''{{var.value.gcs_dest_bucket}}''
              [rows ! i ! 0 @ ''-*.avro'']
              (rows ! i ! 1)
              ''AVRO''
              ''WRITE_TRUNCATE''
              True]"
      by (rule exI [of _ lg], rule exI [of _ g]) (rule conjI [OF run o])
  }
qed

lemma example_rows_well_formed: "well_formed_rows example_rows"
  by (simp add: well_formed_rows_def valid_row_ids_def validate_key_def key_text_def
        key_char_def example_rows_def)

theorem chain_operator_parameters_witness:
  "well_formed_rows example_rows \<and>
   map_sum id operator (BQ_to_GCS \<lparr>table_source = ''p:d.a'', table_dest = ''p:d.b''\<rparr>) =
     Inr (BigQueryToCloudStorageOperator
       ''p:d.a'' [''gs://{{var.value.gcs_source_bucket}}/p:d.a-*.avro''] ''AVRO'') \<and>
   (\<exists>lg g. build_dag example_env = (lg, Inr g) \<and>
     map operator (chain_at g 1) =
       [BigQueryToCloudStorageOperator
          ''p:d.a'' [''gs://{{var.value.gcs_source_bucket}}/p:d.a-*.avro''] ''AVRO'',
        GoogleCloudStorageToGoogleCloudStorageOperator
          ''{{var.value.gcs_source_bucket}}'' ''p:d.a-*.avro'' ''{{var.value.gcs_dest_bucket}}'',
        GoogleCloudStorageToBigQueryOperator
          ''{{var.value.gcs_dest_bucket}}'' [''p:d.a-*.avro''] ''p:d.b''
          ''AVRO'' ''WRITE_TRUNCATE'' True])"
proof -
  let ?r = "\<lparr>table_source = ''p:d.a'', table_dest = ''p:d.b''\<rparr>"
  have v: "variables example_env ''table_list_file_path'' = Some ''table_list.csv''"
    by (simp add: example_env_def path_variable_def)
  have f: "files example_env ''table_list.csv'' =
      Inr (Row [''source'', ''dest''] # map Row example_rows)"
    by (simp add: example_env_def one_file_def)
  have w: "well_formed_rows example_rows" by (rule example_rows_well_formed)
  have i: "1 < length example_rows"
    by (simp add: example_rows_def)
  have c: "BQ_to_GCS ?r = Inr (BQ_to_GCS_args ?r)"
    by (simp add: BQ_to_GCS_def new_operator_def BQ_to_GCS_args_def validate_key_def
          key_text_def key_char_def)
  from chain_operator_parameters [of ?r "BQ_to_GCS_args ?r" _ _ example_env
      "''table_list.csv''" "[''source'', ''dest'']" example_rows 1] v f w i c
  show ?thesis by (simp add: example_rows_def)
qed

lemma invalid_task_id_raises:
  "snd (build_dag invalid_id_env) = Inl AirflowException"
  by (simp add: build_dag_def invalid_id_env_def path_variable_def one_file_def
        read_table_list_def read_body_def py_index_def add_chain_def BQ_to_GCS_def
        new_operator_def BQ_to_GCS_args_def validate_key_def key_text_def key_char_def)

text \<open>
  Claim C10. For a file that opens and is completely empty, the header step
  \<^verbatim>\<open>next(csv_reader)\<close> raises \<open>StopIteration\<close>; it is not an \<open>IOError\<close>, so the handler
  does not catch it: the exception leaves \<open>read_table_list\<close>, which neither returns
  an empty list nor takes the logged path of a read failure (the only log entry is
  the opening information line).
\<close>

theorem empty_file_raises_StopIteration:
  assumes "fs path = Inr []"
  shows "read_table_list fs path =
     ([Log INFO [Text ''Reading table_list_file from : '', Text path] []], Inl StopIteration)"
  using assms by (simp add: read_table_list_def read_body_def)

theorem empty_file_raises_StopIteration_witness:
  "files empty_file_env ''table_list.csv'' = Inr [] \<and>
   read_table_list (files empty_file_env) ''table_list.csv'' =
     ([Log INFO [Text ''Reading table_list_file from : '', Text ''table_list.csv''] []],
      Inl StopIteration)"
proof -
  have f: "files empty_file_env ''table_list.csv'' = Inr []"
    by (simp add: empty_file_env_def one_file_def)
  from empty_file_raises_StopIteration [of "files empty_file_env" "''table_list.csv''", OF f] f show ?thesis by simp
qed

text \<open>
  Claim C5, as amended. For every file that opens, has a first row and whose further
  rows all have at least two fields, \<open>read_table_list\<close> drops the first row and
  returns one record for each further row, in the order of the file, the first
  field as \<open>table_source\<close> and the second as \<open>table_dest\<close> (more fields are
  ignored); each row is logged before it is appended.
\<close>

theorem read_table_list_records:
  assumes "fs path = Inr (Row header # map Row rows)"
    and "\<forall>r\<in>set rows. 2 \<le> length r"
  shows "read_table_list fs path =
     (Log INFO [Text ''Reading table_list_file from : '', Text path] [] #
        map (\<lambda>r. Log INFO [RowRepr r] []) rows,
      Inr (Some (map (\<lambda>r. \<lparr>table_source = r ! 0, table_dest = r ! 1\<rparr>) rows)))"
proof -
  have "read_table_list fs path =
     (Log INFO [Text ''Reading table_list_file from : '', Text path] [] # map row_log rows,
      Inr (Some (map row_record rows)))"
    using assms by (rule read_table_list_ok)
  moreover have "map row_log rows = map (\<lambda>r. Log INFO [RowRepr r] []) rows"
    by (simp add: row_log_def)
  moreover have "map row_record rows = map (\<lambda>r. \<lparr>table_source = r ! 0, table_dest = r ! 1\<rparr>) rows"
    by (simp add: row_record_def)
  ultimately show ?thesis by simp
qed

theorem read_table_list_records_witness:
  "snd (read_table_list (files example_env) ''table_list.csv'') =
     Inr (Some [\<lparr>table_source = ''proj:ds.src'', table_dest = ''proj:ds.dst''\<rparr>,
                \<lparr>table_source = ''p:d.a'', table_dest = ''p:d.b''\<rparr>])"
proof -
  have f: "files example_env ''table_list.csv'' =
      Inr (Row [''source'', ''dest''] # map Row example_rows)"
    by (simp add: example_env_def one_file_def)
  have l: "\<forall>r\<in>set example_rows. 2 \<le> length r"
    by (simp add: example_rows_def)
  from read_table_list_records [of "files example_env" "''table_list.csv''" _ example_rows, OF f l] show ?thesis
    by (simp add: example_rows_def)
qed

text \<open>
  The claim without the condition on the rows fails: a readable file whose second
  data row has one field gives no record list, the read ends with \<open>IndexError\<close>.
\<close>

theorem short_row_counterexample:
  "files short_row_env ''table_list.csv'' =
     Inr [Row [''source'', ''dest''], Row [''p:d.a'', ''p:d.b''], Row [''p:d.c'']] \<and>
   snd (read_table_list (files short_row_env) ''table_list.csv'') = Inl IndexError"
  by (simp add: short_row_env_def one_file_def read_table_list_def read_body_def py_index_def)

text \<open>
  Claim C9. With a client at hand, \<open>get_image\<close> is the client's \<open>get\<close> on the same
  project and image name, and \<open>get_image_from_family\<close> is the client's
  \<open>get_from_family\<close> on the same project and family: the result, a descriptor or an
  error, is handed on unchanged. Neither function takes or returns any state, and
  an error of the client's constructor is handed on as well.
\<close>

theorem image_lookups_pass_through:
  fixes image_client :: "'img images_client"
  shows "get_image (Inr image_client) project_id image_name =
       get image_client project_id image_name \<and>
     get_image_from_family (Inr image_client) project family =
       get_from_family image_client project family \<and>
     get_image (Inl e :: py_error + 'img images_client) project_id image_name = Inl e \<and>
     get_image_from_family (Inl e :: py_error + 'img images_client) project family = Inl e"
  by (simp add: get_image_def get_image_from_family_def)

theorem image_lookups_pass_through_witness:
  "get_image (Inr example_client) ''debian-cloud'' ''debian-12-v1'' = Inr ''image debian-12-v1'' \<and>
   get_image (Inr example_client) ''debian-cloud'' ''missing'' = Inl (ClientError ''not found'') \<and>
   get_image_from_family (Inr example_client) ''debian-cloud'' ''debian-12'' =
     Inr ''image debian-12-v1'' \<and>
   get_image_from_family (Inl (ClientError ''no credentials'') :: py_error + string images_client)
     ''debian-cloud'' ''debian-12'' = Inl (ClientError ''no credentials'')"
  using image_lookups_pass_through [of example_client "''debian-cloud''" "''debian-12-v1''"
      "''debian-cloud''" "''debian-12''" "ClientError ''no credentials''"]
    image_lookups_pass_through [of example_client "''debian-cloud''" "''missing''"
      "''debian-cloud''" "''debian-12''" "ClientError ''no credentials''"]
  by (simp add: example_client_def)

lemma read_table_list_IOError:
  assumes "read_body fs path [reading_entry path] = (lg, Inl IOError)"
  shows "read_table_list fs path =
     (lg @ [Log ERROR [Text ''Error opening table_list_file '', Text path, Text '': '']
              [ExcArg IOError]], Inr None)"
  using assms unfolding read_table_list_def reading_entry_def opening_error_def by simp

lemma read_table_list_other:
  assumes "read_body fs path [reading_entry path] = (lg, Inl e)" and "e \<noteq> IOError"
  shows "read_table_list fs path = (lg, Inl e)"
  using assms unfolding read_table_list_def reading_entry_def by simp

lemma row_logs_info: "list_all (\<lambda>e. entry_level e = INFO) (map row_log rows)"
  by (induction rows) (simp_all add: row_log_def)

lemma read_failure_call_and_None:
  assumes "fs path = Inl IOError \<or>
     (\<exists>pre rest. fs path = Inr (map Row pre @ Raises IOError # rest) \<and>
        list_all (\<lambda>r. 2 \<le> length r) (tl pre))"
  shows "\<exists>lg. read_table_list fs path =
       (lg @ [Log ERROR [Text ''Error opening table_list_file '', Text path, Text '': '']
                [ExcArg IOError]], Inr None) \<and>
       list_all (\<lambda>e. entry_level e = INFO) lg"
proof -
  have "\<exists>lg. read_body fs path [reading_entry path] = (lg, Inl IOError) \<and>
       list_all (\<lambda>e. entry_level e = INFO) lg"
    using assms
  proof
    assume "fs path = Inl IOError"
    then have "read_body fs path [reading_entry path] = ([reading_entry path], Inl IOError)"
      by (simp add: read_body_def)
    then show ?thesis by (simp add: reading_entry_def)
  next
    assume "\<exists>pre rest. fs path = Inr (map Row pre @ Raises IOError # rest) \<and>
        list_all (\<lambda>r. 2 \<le> length r) (tl pre)"
    then obtain pre rest where f: "fs path = Inr (map Row pre @ Raises IOError # rest)"
      and ok: "\<forall>r\<in>set (tl pre). 2 \<le> length r"
      unfolding list_all_iff by blast
    show ?thesis
    proof (cases pre)
      case Nil
      then have "read_body fs path [reading_entry path] = ([reading_entry path], Inl IOError)"
        using f by (simp add: read_body_def)
      then show ?thesis by (simp add: reading_entry_def)
    next
      case (Cons header rows)
      then have rows: "\<forall>r\<in>set rows. 2 \<le> length r" using ok by simp
      have "read_rows (map Row rows @ Raises IOError # rest) [reading_entry path] [] =
          ([reading_entry path] @ map row_log rows, Inl IOError)"
        unfolding read_rows_prefix [OF rows] by simp
      then have "read_body fs path [reading_entry path] =
          ([reading_entry path] @ map row_log rows, Inl IOError)"
        using f Cons by (simp add: read_body_def)
      moreover have "list_all (\<lambda>e. entry_level e = INFO) ([reading_entry path] @ map row_log rows)"
        using row_logs_info [of rows] by (simp add: reading_entry_def)
      ultimately show ?thesis by blast
    qed
  qed
  then obtain lg where b: "read_body fs path [reading_entry path] = (lg, Inl IOError)"
    and i: "list_all (\<lambda>e. entry_level e = INFO) lg" by blast
  from read_table_list_IOError [OF b] i show ?thesis by blast
qed

text \<open>
  Claim C3. When the file cannot be opened (\<^verbatim>\<open>io.open\<close> raises \<open>IOError\<close>), or a read
  raises \<open>IOError\<close> at the header step or after rows that each have two fields, the
  handler of \<open>read_table_list\<close> catches the exception and the function returns
  \<open>None\<close>. Its last act is one call of \<^verbatim>\<open>logger.error\<close> whose message names the
  path; but the call passes the exception as an argument to a message that has no
  placeholder for it, so (for a path without per cent sign) the logging library
  cannot render the record: rendering raises \<open>TypeError\<close>, and no error line that
  names the path is written. The code tries to log the failing path and misses.
\<close>

theorem read_failure_error_line_not_rendered:
  assumes "fs path = Inl IOError \<or>
     (\<exists>pre rest. fs path = Inr (map Row pre @ Raises IOError # rest) \<and>
        list_all (\<lambda>r. 2 \<le> length r) (tl pre))"
    and "CHR ''%'' \<notin> set path"
  shows "\<exists>lg. read_table_list fs path =
       (lg @ [Log ERROR [Text ''Error opening table_list_file '', Text path, Text '': '']
                [ExcArg IOError]], Inr None) \<and>
       list_all (\<lambda>e. entry_level e = INFO) lg \<and>
       getMessage (Log ERROR [Text ''Error opening table_list_file '', Text path, Text '': '']
                [ExcArg IOError]) = RenderingRaises TypeError"
proof -
  from read_failure_call_and_None [of fs path, OF assms(1)] obtain lg where
    r: "read_table_list fs path =
       (lg @ [Log ERROR [Text ''Error opening table_list_file '', Text path, Text '': '']
                [ExcArg IOError]], Inr None)"
    and i: "list_all (\<lambda>e. entry_level e = INFO) lg"
    by blast
  have m: "getMessage (Log ERROR [Text ''Error opening table_list_file '', Text path, Text '': '']
                [ExcArg IOError]) = RenderingRaises TypeError"
    using assms(2) by simp
  from r i m show ?thesis by blast
qed

theorem read_failure_error_line_not_rendered_witness:
  "read_table_list (files example_env) ''missing.csv'' =
     ([Log INFO [Text ''Reading table_list_file from : '', Text ''missing.csv''] [],
       Log ERROR [Text ''Error opening table_list_file '', Text ''missing.csv'', Text '': '']
         [ExcArg IOError]],
      Inr None) \<and>
   getMessage (Log INFO [Text ''Reading table_list_file from : '', Text ''missing.csv''] []) =
     Rendered [Text ''Reading table_list_file from : '', Text ''missing.csv''] \<and>
   getMessage (Log ERROR [Text ''Error opening table_list_file '', Text ''missing.csv'',
       Text '': ''] [ExcArg IOError]) = RenderingRaises TypeError"
proof -
  have a: "files example_env ''missing.csv'' = Inl IOError"
    by (simp add: example_env_def one_file_def)
  have p: "CHR ''%'' \<notin> set ''missing.csv''" by simp
  from read_failure_error_line_not_rendered [of "files example_env" "''missing.csv''"] a p
  have m: "getMessage (Log ERROR [Text ''Error opening table_list_file '', Text ''missing.csv'',
       Text '': ''] [ExcArg IOError]) = RenderingRaises TypeError"
    by blast
  have r: "read_table_list (files example_env) ''missing.csv'' =
     ([Log INFO [Text ''Reading table_list_file from : '', Text ''missing.csv''] [],
       Log ERROR [Text ''Error opening table_list_file '', Text ''missing.csv'', Text '': '']
         [ExcArg IOError]],
      Inr None)"
    by (simp add: read_table_list_def read_body_def example_env_def one_file_def
          opening_error_def)
  from r m show ?thesis by simp
qed

text \<open>
  Claim C7. For a file that opens, has a header and has some data row with fewer
  than two fields, \<open>read_table_list\<close> ends with the \<open>IndexError\<close> of the first such
  row: the exception leaves the function, no later row is skipped to, and nothing
  is logged at level \<open>ERROR\<close>.
\<close>

theorem malformed_row_propagates:
  assumes "fs path = Inr (Row header # map Row rows)"
    and "\<exists>r\<in>set rows. length r < 2"
  shows "snd (read_table_list fs path) = Inl IndexError \<and>
         list_all (\<lambda>e. entry_level e = INFO) (fst (read_table_list fs path))"
proof -
  from read_rows_malformed [OF assms(2), of "[reading_entry path]" "[]"]
  obtain pre r where
    rr: "read_rows (map Row rows) [reading_entry path] [] =
       ([reading_entry path] @ map row_log pre @ [row_log r], Inl IndexError)"
    by blast
  have b: "read_body fs path [reading_entry path] =
       ([reading_entry path] @ map row_log pre @ [row_log r], Inl IndexError)"
    using assms(1) rr by (simp add: read_body_def)
  have "read_table_list fs path =
       ([reading_entry path] @ map row_log pre @ [row_log r], Inl IndexError)"
    using b by (rule read_table_list_other) simp
  moreover have "list_all (\<lambda>e. entry_level e = INFO)
       ([reading_entry path] @ map row_log pre @ [row_log r])"
    using row_logs_info [of pre] by (simp add: reading_entry_def row_log_def)
  ultimately show ?thesis by simp
qed

theorem malformed_row_propagates_witness:
  "snd (read_table_list (files short_row_env) ''table_list.csv'') = Inl IndexError \<and>
   list_all (\<lambda>e. entry_level e = INFO)
     (fst (read_table_list (files short_row_env) ''table_list.csv''))"
proof -
  have f: "files short_row_env ''table_list.csv'' =
      Inr (Row [''source'', ''dest''] # map Row [[''p:d.a'', ''p:d.b''], [''p:d.c'']])"
    by (simp add: short_row_env_def one_file_def)
  have s: "\<exists>r\<in>set [[''p:d.a'', ''p:d.b''], [''p:d.c'']]. length r < 2"
    by simp
  from malformed_row_propagates [of "files short_row_env" "''table_list.csv''", OF f s]
  show ?thesis .
qed

lemma read_rows_snd: "snd (read_rows evs lg acc) = snd (read_rows evs [] acc)"
proof (induction evs arbitrary: lg acc)
  case Nil
  show ?case by simp
next
  case (Cons ev evs)
  show ?case
  proof (cases ev)
    case (Raises e)
    then show ?thesis by simp
  next
    case (Row row)
    show ?thesis
    proof (cases "2 \<le> length row")
      case True
      have "snd (read_rows (Row row # evs) lg acc) =
          snd (read_rows evs (lg @ [row_log row]) (acc @ [row_record row]))"
        by (simp only: read_rows_step [OF True])
      also have "\<dots> = snd (read_rows evs [] (acc @ [row_record row]))"
        by (rule Cons.IH)
      also have "\<dots> = snd (read_rows evs ([] @ [row_log row]) (acc @ [row_record row]))"
        by (rule Cons.IH [symmetric])
      also have "\<dots> = snd (read_rows (Row row # evs) [] acc)"
        by (simp only: read_rows_step [OF True])
      finally show ?thesis by (simp only: Row)
    next
      case False
      then have short: "length row < 2" by simp
      show ?thesis by (simp only: Row read_rows_short [OF short] snd_conv)
    qed
  qed
qed

lemma read_body_snd:
  assumes "fs1 p1 = fs2 p2"
  shows "snd (read_body fs1 p1 lg1) = snd (read_body fs2 p2 lg2)"
proof (cases "fs2 p2")
  case (Inl e)
  then show ?thesis using assms by (simp add: read_body_def)
next
  case (Inr events)
  show ?thesis
  proof (cases events)
    case Nil
    then show ?thesis using assms Inr by (simp add: read_body_def)
  next
    case (Cons ev rest)
    show ?thesis
    proof (cases ev)
      case (Raises e)
      then show ?thesis using assms Inr Cons by (simp add: read_body_def)
    next
      case (Row header)
      have "snd (read_rows rest lg1 []) = snd (read_rows rest lg2 [])"
        using read_rows_snd [of rest lg1 "[]"] read_rows_snd [of rest lg2 "[]"] by simp
      then show ?thesis using assms Inr Cons Row by (simp add: read_body_def)
    qed
  qed
qed

lemma read_table_list_by_body:
  "snd (read_table_list fs p) =
     (case snd (read_body fs p [reading_entry p]) of
        Inr t \<Rightarrow> Inr (Some t)
      | Inl e \<Rightarrow> if e = IOError then Inr None else Inl e)"
proof (cases "read_body fs p [reading_entry p]")
  case (Pair lg r)
  then show ?thesis
    by (cases r) (simp_all add: read_table_list_def reading_entry_def)
qed

lemma read_table_list_snd:
  assumes "fs1 p1 = fs2 p2"
  shows "snd (read_table_list fs1 p1) = snd (read_table_list fs2 p2)"
  unfolding read_table_list_by_body
  using read_body_snd [of fs1 p1 fs2 p2 "[reading_entry p1]" "[reading_entry p2]", OF assms] by simp

lemma add_chain_structure:
  assumes "tasks g = tasks g'" and "edges g = edges g'"
  shows "map_sum id graph_structure (snd (add_chain r (lg, g))) =
         map_sum id graph_structure (snd (add_chain r (lg', g')))"
proof (cases "BQ_to_GCS r")
  case (Inl e)
  then show ?thesis by (simp add: add_chain_def)
next
  case a: (Inr a)
  show ?thesis
  proof (cases "GCS_to_GCS r")
    case (Inl e)
    then show ?thesis using a by (simp add: add_chain_def)
  next
    case b: (Inr b)
    show ?thesis
    proof (cases "GCS_to_BQ r")
      case (Inl e)
      then show ?thesis using a b by (simp add: add_chain_def)
    next
      case c: (Inr c)
      show ?thesis
        using assms
        by (simp add: add_chain_def a b c Let_def graph_structure_def add_task_def
              set_downstream_def)
    qed
  qed
qed

lemma build_loop_structure:
  assumes "tasks g = tasks g'" and "edges g = edges g'"
  shows "map_sum id graph_structure (snd (build_loop recs (lg, g))) =
         map_sum id graph_structure (snd (build_loop recs (lg', g')))"
  using assms
proof (induction recs arbitrary: lg g lg' g')
  case Nil
  then show ?case by (simp add: graph_structure_def)
next
  case (Cons r recs)
  obtain l1 x where s1: "add_chain r (lg, g) = (l1, x)" by (cases "add_chain r (lg, g)")
  obtain l2 y where s2: "add_chain r (lg', g') = (l2, y)" by (cases "add_chain r (lg', g')")
  have eq: "map_sum id graph_structure x = map_sum id graph_structure y"
    using add_chain_structure [OF Cons.prems, of r lg lg'] by (simp add: s1 s2)
  show ?case
  proof (cases x)
    case (Inl e)
    then have "y = Inl e" using eq by (cases y) simp_all
    then show ?thesis using Inl by (simp add: s1 s2)
  next
    case (Inr g1)
    then obtain g2 where y: "y = Inr g2" and gs: "graph_structure g1 = graph_structure g2"
      using eq by (cases y) simp_all
    from gs have "tasks g1 = tasks g2" and "edges g1 = edges g2"
      by (simp_all add: graph_structure_def)
    from Cons.IH [OF this, of l1 l2] show ?thesis
      by (simp add: s1 s2 Inr y)
  qed
qed

lemma build_dag_by_read:
  assumes "variables ev ''table_list_file_path'' = Some p"
  shows "map_sum id graph_structure (snd (build_dag ev)) =
     (case snd (read_table_list (files ev) p) of
        Inl e \<Rightarrow> Inl e
      | Inr None \<Rightarrow> Inl TypeError
      | Inr (Some recs) \<Rightarrow>
          map_sum id graph_structure
            (snd (build_loop recs ([], add_task end_task (add_task start (empty_dag 0))))))"
proof (cases "read_table_list (files ev) p")
  case (Pair lg r)
  show ?thesis
  proof (cases r)
    case (Inl e)
    then show ?thesis using assms Pair by (simp add: build_dag_def)
  next
    case (Inr res)
    show ?thesis
    proof (cases res)
      case None
      then show ?thesis using assms Pair Inr by (simp add: build_dag_def)
    next
      case (Some recs)
      have "map_sum id graph_structure
          (snd (build_loop recs (lg, add_task end_task (add_task start (empty_dag (now ev)))))) =
        map_sum id graph_structure
          (snd (build_loop recs ([], add_task end_task (add_task start (empty_dag 0)))))"
        by (rule build_loop_structure) (simp_all add: add_task_def empty_dag_def)
      then show ?thesis using assms Pair Inr Some
        by (simp add: build_dag_def)
    qed
  qed
qed

text \<open>
  Claim C6. The records and the graph depend on the contents of the configuration
  file only. Two runs whose files have the same contents, whatever the paths, the
  rest of the file system, the other variables and the clock, end in the same way:
  \<open>read_table_list\<close> gives the same outcome (the same record list, element by
  element, or the same failure), and the builder gives the same tasks, with the same
  identifiers and parameters, and the same edges (or fails with the same error).
\<close>

theorem same_contents_same_records_and_graph:
  assumes "variables ev1 ''table_list_file_path'' = Some p1"
    and "variables ev2 ''table_list_file_path'' = Some p2"
    and "files ev1 p1 = files ev2 p2"
  shows "snd (read_table_list (files ev1) p1) = snd (read_table_list (files ev2) p2) \<and>
         map_sum id graph_structure (snd (build_dag ev1)) =
         map_sum id graph_structure (snd (build_dag ev2))"
proof -
  have r: "snd (read_table_list (files ev1) p1) = snd (read_table_list (files ev2) p2)"
    using assms(3) by (rule read_table_list_snd)
  have "map_sum id graph_structure (snd (build_dag ev1)) =
         map_sum id graph_structure (snd (build_dag ev2))"
    unfolding build_dag_by_read [OF assms(1)] build_dag_by_read [OF assms(2)] r ..
  with r show ?thesis ..
qed

theorem same_contents_same_records_and_graph_witness:
  "now example_env \<noteq> now moved_env \<and>
   fst (read_table_list (files example_env) ''table_list.csv'') \<noteq>
     fst (read_table_list (files moved_env) ''copy.csv'') \<and>
   snd (read_table_list (files example_env) ''table_list.csv'') =
     snd (read_table_list (files moved_env) ''copy.csv'') \<and>
   map_sum id graph_structure (snd (build_dag example_env)) =
     map_sum id graph_structure (snd (build_dag moved_env))"
proof -
  have v1: "variables example_env ''table_list_file_path'' = Some ''table_list.csv''"
    by (simp add: example_env_def path_variable_def)
  have v2: "variables moved_env ''table_list_file_path'' = Some ''copy.csv''"
    by (simp add: moved_env_def path_variable_def)
  have f: "files example_env ''table_list.csv'' = files moved_env ''copy.csv''"
    by (simp add: example_env_def moved_env_def one_file_def)
  have n: "now example_env \<noteq> now moved_env"
    by (simp add: example_env_def moved_env_def)
  have l: "fst (read_table_list (files example_env) ''table_list.csv'') \<noteq>
     fst (read_table_list (files moved_env) ''copy.csv'')"
    by (simp add: read_table_list_def read_body_def example_env_def moved_env_def one_file_def
          example_rows_def py_index_def)
  from same_contents_same_records_and_graph [OF v1 v2 f] n l show ?thesis by simp
qed

end
